theory Spec2Isabelle
  imports Main "HOL-Library.AList" "HOL-Library.Sublist" "HOL-Library.Multiset"
begin

section \<open>The report upload of \<open>obspy/scripts/runtests.py\<close>\<close>

text \<open>
  The theory embeds \<^verbatim>\<open>upload_json_report\<close> (lines 118 to 138 of
  \<^verbatim>\<open>src/obspy/scripts/runtests.py\<close>):
  \<^verbatim>\<open>
  REPORT_URL = "tests.obspy.org"

  def upload_json_report(report=None, data=None):
      if report is None:
          msg = f"Do you want to report this to {REPORT_URL} ? [n]: "
          answer = input(msg).lower()
          report = 'y' in answer
      if report:
          # only include unique warnings.
          data['warnings'] = [
              dict(t) for t in {tuple(d.items()) for d in data['warnings']}
          ]
          response = requests.post(f"https://{REPORT_URL}/post/v2/", json=data)
          # get the response
          if response.status_code == 200:
              report_url = response.json().get('url', REPORT_URL)
              print('Your test results have been reported and are available at: '
                    '{}\nThank you!'.format(report_url))
          # handle errors
          else:
              print(f"Error: Could not sent a test report to {REPORT_URL}.")
              print(response.reason)
  \<close>
  Everything the function does beyond computing values is explicit: the console and the
  network are a \<open>world\<close> that is passed through, the caller's \<open>data\<close> object is returned
  as the call leaves it, and an exception that leaves the function is a value.
\<close>

subsection \<open>Python values\<close>

text \<open>The exceptions that can leave the function.\<close>

datatype py_exception =
    EOFError          \<comment> \<open>\<^verbatim>\<open>input\<close> at the end of standard input\<close>
  | TypeError         \<comment> \<open>\<^verbatim>\<open>data['warnings']\<close> on \<^verbatim>\<open>None\<close>; iterating a value that is not iterable\<close>
  | KeyError          \<comment> \<open>\<^verbatim>\<open>data['warnings']\<close> without that key\<close>
  | ConnectionError   \<comment> \<open>\<^verbatim>\<open>requests.post\<close> without a response\<close>
  | TooManyRedirects  \<comment> \<open>\<^verbatim>\<open>requests.post\<close> after more than 30 redirects\<close>
  | JSONDecodeError   \<comment> \<open>\<^verbatim>\<open>response.json()\<close> on a body that is not JSON\<close>
  | AttributeError    \<comment> \<open>\<^verbatim>\<open>.get\<close> on a JSON value that is no object\<close>

text \<open>
  A Python \<^verbatim>\<open>dict\<close> keeps its keys in insertion order, so it is an association list
  (with distinct keys, which is what \<open>dict\<close> below builds). A warning record is a dict
  from strings to scalars; the scalars are a type \<open>'v\<close> whose equality is Python's
  \<^verbatim>\<open>==\<close>.
\<close>

type_synonym 'v warning = "(string \<times> 'v) list"

text \<open>\<^verbatim>\<open>tuple(d.items())\<close>: the key/value pairs in the order of the dict.\<close>

definition items :: "('k \<times> 'v) list \<Rightarrow> ('k \<times> 'v) list" where
  "items d = d"

text \<open>
  \<^verbatim>\<open>dict(t)\<close> on a sequence of pairs: the pairs are stored from left to right; a key seen
  again keeps its place and takes the new value.
\<close>

definition dict :: "('k \<times> 'v) list \<Rightarrow> ('k \<times> 'v) list" where
  "dict t = foldl (\<lambda>d kv. AList.update (fst kv) (snd kv) d) [] t"

text \<open>
  Python's \<^verbatim>\<open>==\<close> on two dicts: the same keys with the same values, in whatever order
  the keys were inserted. On association lists with distinct keys that is equality of
  the sets of key/value pairs.
\<close>

definition same_fields :: "('k \<times> 'v) list \<Rightarrow> ('k \<times> 'v) list \<Rightarrow> bool" where
  "same_fields d e \<longleftrightarrow> set d = set e"

text \<open>
  A set comprehension \<^verbatim>\<open>{f(x) for x in xs}\<close> followed by an iteration over the set: equal
  elements are kept once, and the iteration runs in the order of the hash table, which
  the program does not control. The order is a parameter \<open>slot\<close> ranking the elements;
  the theorems hold for every \<open>slot\<close>.
\<close>

definition set_iter :: "('a \<Rightarrow> nat) \<Rightarrow> 'a list \<Rightarrow> 'a list" where
  "set_iter slot xs = sort_key slot (remdups xs)"

text \<open>
  \<^verbatim>\<open>str.lower\<close>. A string is a list of bytes (UTF-8); only the ASCII capitals change
  here. Python also lowers capitals beyond ASCII, whose bytes are all above 127, so no
  \<^verbatim>\<open>y\<close> appears or disappears that way.
\<close>

definition lower_char :: "char \<Rightarrow> char" where
  "lower_char c =
     (let n = (of_char c :: nat) in if 65 \<le> n \<and> n \<le> 90 then char_of (n + 32) else c)"

definition lower :: "string \<Rightarrow> string" where
  "lower s = map lower_char s"

text \<open>\<^verbatim>\<open>sub in s\<close> on strings: \<open>sub\<close> occurs in \<open>s\<close> as a contiguous piece.\<close>

definition str_in :: "string \<Rightarrow> string \<Rightarrow> bool" where
  "str_in sub s \<longleftrightarrow> sublist sub s"

subsection \<open>Reports, requests and responses\<close>

text \<open>
  The report is a dict. \<open>Warnings ws\<close> is a value the comprehension of lines 126 to 128
  runs through: a list, or any other iterable, whose elements are the dicts \<open>ws\<close>.
  Every other value is \<open>Other\<close>: the function does not look at it under another key,
  and under \<^verbatim>\<open>'warnings'\<close> the comprehension raises on it.
\<close>

datatype ('v, 'x) field = Warnings "'v warning list" | Other 'x

type_synonym ('v, 'x) report = "(string \<times> ('v, 'x) field) list"

text \<open>
  A request as it goes out: the method, the URL, and the body with its content type
  when there is one. What \<^verbatim>\<open>requests.post(url, json=data)\<close> sends first is a POST to
  \<open>url\<close> whose body is \<open>data\<close> serialised as JSON, with the content type
  \<^verbatim>\<open>application/json\<close>.
\<close>

record ('v, 'x) request =
  http_method :: string
  url :: string
  content_type :: "string option"
  json_payload :: "('v, 'x) report option"

definition post_json :: "string \<Rightarrow> ('v, 'x) report \<Rightarrow> ('v, 'x) request" where
  "post_json u d =
     \<lparr>http_method = ''POST'', url = u, content_type = Some ''application/json'',
      json_payload = Some d\<rparr>"

text \<open>
  A JSON value as \<^verbatim>\<open>response.json()\<close> returns it: the function looks at objects and
  prints strings as they are; numbers, booleans, \<^verbatim>\<open>null\<close> and arrays are \<open>JOther\<close>.
\<close>

datatype 'j json = JStr string | JObj "(string \<times> 'j json) list" | JOther 'j

text \<open>
  The response: \<open>body\<close> is the parsed body, \<open>None\<close> when the body is not JSON (then
  \<^verbatim>\<open>response.json()\<close> raises); \<open>location\<close> is the \<^verbatim>\<open>Location\<close> header, when the
  response has one.
\<close>

record 'j response =
  status_code :: int
  reason :: string
  body :: "'j json option"
  location :: "string option"

definition response_json :: "'j response \<Rightarrow> py_exception + 'j json" where
  "response_json r = (case body r of None \<Rightarrow> Inl JSONDecodeError | Some j \<Rightarrow> Inr j)"

text \<open>\<^verbatim>\<open>j.get(k, default)\<close>: only a dict has \<^verbatim>\<open>get\<close>.\<close>

definition json_get :: "'j json \<Rightarrow> string \<Rightarrow> 'j json \<Rightarrow> py_exception + 'j json" where
  "json_get j k dflt =
     (case j of
        JObj kvs \<Rightarrow> Inr (case map_of kvs k of None \<Rightarrow> dflt | Some v \<Rightarrow> v)
      | JStr s \<Rightarrow> Inl AttributeError
      | JOther x \<Rightarrow> Inl AttributeError)"

text \<open>
  \<^verbatim>\<open>'{}'.format(v)\<close>: a string is inserted as it is; for any other value Python's
  \<^verbatim>\<open>str\<close> decides, which is the parameter \<open>str\<close>.
\<close>

definition format_value :: "('j json \<Rightarrow> string) \<Rightarrow> 'j json \<Rightarrow> string" where
  "format_value str v = (case v of JStr s \<Rightarrow> s | JObj kvs \<Rightarrow> str v | JOther x \<Rightarrow> str v)"

subsection \<open>The world\<close>

text \<open>
  \<open>stdin\<close>: the lines still to be read; \<open>stdout\<close>: everything written so far;
  \<open>network\<close>: the requests sent so far, oldest first.
\<close>

record ('v, 'x) world =
  stdin :: "string list"
  stdout :: string
  network :: "('v, 'x) request list"

text \<open>
  What the function does not decide: the iteration order of the set of warnings; Python's
  \<^verbatim>\<open>str\<close> on JSON values that are not strings; the server (\<open>None\<close>: no response, the
  request raises); the URL that \<^verbatim>\<open>requests\<close> makes of the URL of a request and the
  \<^verbatim>\<open>Location\<close> of its answer (\<^verbatim>\<open>urljoin\<close> and quoting); and the exception of the
  comprehension on a value that is no iterable of dicts (\<^verbatim>\<open>TypeError\<close> when the value
  is not iterable or an item of a dict is not hashable, \<^verbatim>\<open>AttributeError\<close> when an
  element has no \<^verbatim>\<open>items\<close>).
\<close>

record ('v, 'x, 'j) runtime =
  slot :: "'v warning \<Rightarrow> nat"
  str :: "'j json \<Rightarrow> string"
  server :: "('v, 'x) request \<Rightarrow> 'j response option"
  urljoin :: "string \<Rightarrow> string \<Rightarrow> string"
  raises :: "'x \<Rightarrow> py_exception"

definition newline :: string where
  "newline = [CHR 0x0A]"

definition print :: "string \<Rightarrow> ('v, 'x) world \<Rightarrow> ('v, 'x) world" where
  "print s w = w\<lparr>stdout := stdout w @ s @ newline\<rparr>"

text \<open>\<^verbatim>\<open>input(msg)\<close> writes the prompt, then reads one line (without its end of line).\<close>

definition input :: "string \<Rightarrow> ('v, 'x) world \<Rightarrow> (py_exception + string) \<times> ('v, 'x) world" where
  "input msg w =
     (let w' = w\<lparr>stdout := stdout w @ msg\<rparr> in
      case stdin w' of
        [] \<Rightarrow> (Inl EOFError, w')
      | l # ls \<Rightarrow> (Inr l, w'\<lparr>stdin := ls\<rparr>))"

text \<open>
  \<^verbatim>\<open>requests.post\<close> follows redirects (\<^verbatim>\<open>allow_redirects\<close> is true unless the caller
  says otherwise, and line 129 does not). A response is a redirect when its status is
  301, 302, 303, 307 or 308 and it has a \<^verbatim>\<open>Location\<close> that is not empty
  (\<^verbatim>\<open>Response.is_redirect\<close>, \<^verbatim>\<open>get_redirect_target\<close> and the \<^verbatim>\<open>while url:\<close> of
  \<^verbatim>\<open>resolve_redirects\<close>).
\<close>

definition redirect_target :: "'j response \<Rightarrow> string option" where
  "redirect_target r =
     (case location r of
        None \<Rightarrow> None
      | Some l \<Rightarrow>
          if status_code r \<in> {301, 302, 303, 307, 308} \<and> l \<noteq> [] then Some l else None)"

text \<open>
  \<^verbatim>\<open>rebuild_method\<close>: after 303 and 302 every method but HEAD becomes GET, after 301 a
  POST becomes GET.
\<close>

definition rebuild_method :: "string \<Rightarrow> int \<Rightarrow> string" where
  "rebuild_method m status =
     (let m1 = (if status = 303 \<and> m \<noteq> ''HEAD'' then ''GET'' else m);
          m2 = (if status = 302 \<and> m1 \<noteq> ''HEAD'' then ''GET'' else m1)
      in if status = 301 \<and> m2 = ''POST'' then ''GET'' else m2)"

text \<open>
  The request that follows a redirect: the new URL, the rebuilt method, and the body
  with its content type only after 307 and 308.
\<close>

definition redirected ::
  "('v, 'x, 'j) runtime \<Rightarrow> ('v, 'x) request \<Rightarrow> 'j response \<Rightarrow> string \<Rightarrow> ('v, 'x) request" where
  "redirected rt req r l =
     (let req' = req\<lparr>url := urljoin rt (url req) l,
                     http_method := rebuild_method (http_method req) (status_code r)\<rparr>
      in if status_code r = 307 \<or> status_code r = 308 then req'
         else req'\<lparr>content_type := None, json_payload := None\<rparr>)"

text \<open>
  \<^verbatim>\<open>resolve_redirects\<close>, with the number of redirects that may still be followed: a
  response that is no redirect is the result; a redirect beyond the limit raises;
  otherwise the next request goes out and its answer is looked at in the same way.
\<close>

fun resolve_redirects ::
  "nat \<Rightarrow> ('v, 'x, 'j) runtime \<Rightarrow> ('v, 'x) request \<Rightarrow> 'j response \<Rightarrow> ('v, 'x) world \<Rightarrow>
   (py_exception + 'j response) \<times> ('v, 'x) world" where
  "resolve_redirects 0 rt req r w =
     (case redirect_target r of
        None \<Rightarrow> (Inr r, w)
      | Some l \<Rightarrow> (Inl TooManyRedirects, w))"
| "resolve_redirects (Suc n) rt req r w =
     (case redirect_target r of
        None \<Rightarrow> (Inr r, w)
      | Some l \<Rightarrow>
          (let req' = redirected rt req r l;
               w' = w\<lparr>network := network w @ [req']\<rparr>
           in case server rt req' of
                None \<Rightarrow> (Inl ConnectionError, w')
              | Some r' \<Rightarrow> resolve_redirects n rt req' r' w'))"

text \<open>
  \<^verbatim>\<open>requests.post\<close>: the request goes out; without an answer the call raises; with one,
  up to 30 redirects are followed (\<^verbatim>\<open>DEFAULT_REDIRECT_LIMIT\<close>) and the last response is
  the result.
\<close>

definition requests_post ::
  "('v, 'x, 'j) runtime \<Rightarrow> ('v, 'x) request \<Rightarrow> ('v, 'x) world \<Rightarrow>
   (py_exception + 'j response) \<times> ('v, 'x) world" where
  "requests_post rt req w =
     (let w' = w\<lparr>network := network w @ [req]\<rparr> in
      case server rt req of
        None \<Rightarrow> (Inl ConnectionError, w')
      | Some r \<Rightarrow> resolve_redirects 30 rt req r w')"

subsection \<open>The function\<close>

definition REPORT_URL :: string where
  "REPORT_URL = ''tests.obspy.org''"

text \<open>Lines 120 to 123: the flag as given, or the answer to the prompt.\<close>

definition consent_prompt :: string where
  "consent_prompt = ''Do you want to report this to '' @ REPORT_URL @ '' ? [n]: ''"

definition resolve_report ::
  "bool option \<Rightarrow> ('v, 'x) world \<Rightarrow> (py_exception + bool) \<times> ('v, 'x) world" where
  "resolve_report report w =
     (case report of
        Some b \<Rightarrow> (Inr b, w)
      | None \<Rightarrow>
          (case input consent_prompt w of
             (Inl e, w') \<Rightarrow> (Inl e, w')
           | (Inr answer, w') \<Rightarrow> (Inr (str_in ''y'' (lower answer)), w')))"

text \<open>Line 129: the request, \<^verbatim>\<open>requests.post(f"https://{REPORT_URL}/post/v2/", json=data)\<close>.\<close>

definition report_request :: "('v, 'x) report \<Rightarrow> ('v, 'x) request" where
  "report_request d = post_json (''https://'' @ REPORT_URL @ ''/post/v2/'') d"

text \<open>Lines 126 to 128: the list that replaces \<^verbatim>\<open>data['warnings']\<close>.\<close>

definition unique_warnings :: "('v warning \<Rightarrow> nat) \<Rightarrow> 'v warning list \<Rightarrow> 'v warning list" where
  "unique_warnings sl ws = map dict (set_iter sl (map items ws))"

text \<open>Lines 131 to 138: what is printed for a response.\<close>

definition report_response ::
  "('v, 'x, 'j) runtime \<Rightarrow> 'j response \<Rightarrow> ('v, 'x) world \<Rightarrow>
   py_exception option \<times> ('v, 'x) world" where
  "report_response rt r w =
     (if status_code r = 200 then
        (case response_json r of
           Inl e \<Rightarrow> (Some e, w)
         | Inr j \<Rightarrow>
             (case json_get j ''url'' (JStr REPORT_URL) of
                Inl e \<Rightarrow> (Some e, w)
              | Inr report_url \<Rightarrow>
                  (None,
                   print (''Your test results have been reported and are available at: ''
                          @ format_value (str rt) report_url @ newline @ ''Thank you!'') w)))
      else
        (None,
         print (reason r)
           (print (''Error: Could not sent a test report to '' @ REPORT_URL @ ''.'') w)))"

text \<open>
  The whole function. The result is the exception that left it (if any), the caller's
  \<open>data\<close> as the call leaves it, and the world.
\<close>

definition upload_json_report ::
  "('v, 'x, 'j) runtime \<Rightarrow> bool option \<Rightarrow> ('v, 'x) report option \<Rightarrow> ('v, 'x) world \<Rightarrow>
   py_exception option \<times> ('v, 'x) report option \<times> ('v, 'x) world" where
  "upload_json_report rt report data w =
     (case resolve_report report w of
        (Inl e, w1) \<Rightarrow> (Some e, data, w1)
      | (Inr rep, w1) \<Rightarrow>
          if rep then
            (case data of
               None \<Rightarrow> (Some TypeError, data, w1)
             | Some d \<Rightarrow>
                 (case map_of d ''warnings'' of
                    None \<Rightarrow> (Some KeyError, data, w1)
                  | Some (Other x) \<Rightarrow> (Some (raises rt x), data, w1)
                  | Some (Warnings ws) \<Rightarrow>
                      (let d' = AList.update ''warnings''
                                  (Warnings (unique_warnings (slot rt) ws)) d in
                       case requests_post rt (report_request d') w1 of
                         (Inl e, w2) \<Rightarrow> (Some e, Some d', w2)
                       | (Inr response, w2) \<Rightarrow>
                           (case report_response rt response w2 of
                              (ex, w3) \<Rightarrow> (ex, Some d', w3)))))
          else (None, data, w1))"

subsection \<open>Concrete runs\<close>

text \<open>
  A runtime whose server answers every request with \<open>r\<close>, and a world where nothing
  has happened yet. The warnings hold integers, the other fields of a report are
  strings.
\<close>

definition answering :: "'j response \<Rightarrow> (int, string, 'j) runtime" where
  "answering r =
     \<lparr>slot = (\<lambda>d. 0), str = (\<lambda>j. ''?''), server = (\<lambda>req. Some r),
      urljoin = (\<lambda>u l. l), raises = (\<lambda>x. AttributeError)\<rparr>"

definition quiet :: "(int, string) world" where
  "quiet = \<lparr>stdin = [], stdout = [], network = []\<rparr>"

text \<open>
  Two answers of a server: a refusal, and a success whose body is not JSON. A report
  with an empty list of warnings.
\<close>

definition unavailable :: "unit response" where
  "unavailable =
     \<lparr>status_code = 503, reason = ''Service Unavailable'', body = None, location = None\<rparr>"

definition garbled :: "unit response" where
  "garbled = \<lparr>status_code = 200, reason = ''OK'', body = None, location = None\<rparr>"

definition no_warnings :: "(int, string) report" where
  "no_warnings = [(''warnings'', Warnings [])]"

text \<open>
  A success whose body is \<^verbatim>\<open>{"url": "https://tests.example/r/42"}\<close>, and a report with
  a repeated warning between two other fields.
\<close>

definition published :: "unit response" where
  "published =
     \<lparr>status_code = 200, reason = ''OK'',
      body = Some (JObj [(''url'', JStr ''https://tests.example/r/42'')]),
      location = None\<rparr>"


text \<open>
  A success whose body is JSON but no object (\<^verbatim>\<open>[]\<close>, \<^verbatim>\<open>null\<close>, a number), and a
  temporary redirect to another URL.
\<close>

definition listed :: "unit response" where
  "listed = \<lparr>status_code = 200, reason = ''OK'', body = Some (JOther ()), location = None\<rparr>"

definition moved :: "unit response" where
  "moved =
     \<lparr>status_code = 307, reason = ''Temporary Redirect'', body = None,
      location = Some ''https://tests.example/post/''\<rparr>"

text \<open>
  A runtime whose server redirects the report to \<^verbatim>\<open>https://tests.example/post/\<close> and
  refuses it there.
\<close>

definition redirecting :: "(int, string, unit) runtime" where
  "redirecting =
     \<lparr>slot = (\<lambda>d. 0), str = (\<lambda>j. ''?''),
      server = (\<lambda>req. if url req = ''https://tests.example/post/''
                       then Some unavailable else Some moved),
      urljoin = (\<lambda>u l. l), raises = (\<lambda>x. AttributeError)\<rparr>"

text \<open>
  Two warning records with the same fields, written in a different order of keys:
  \<^verbatim>\<open>{"a": 1, "b": 2}\<close> and \<^verbatim>\<open>{"b": 2, "a": 1}\<close>.
\<close>

definition ab :: "int warning" where
  "ab = [(''a'', 1), (''b'', 2)]"

definition ba :: "int warning" where
  "ba = [(''b'', 2), (''a'', 1)]"

section \<open>Properties\<close>

subsection \<open>Strings\<close>

lemma lower_char_y: "lower_char c = CHR ''y'' \<longleftrightarrow> c = CHR ''y'' \<or> c = CHR ''Y''"
proof -
  define n where "n = (of_char c :: nat)"
  have c: "c = char_of n" by (simp add: n_def)
  have n256: "n < 256" by (simp add: n_def)
  have y: "c = CHR ''y'' \<longleftrightarrow> n = 121"
    using n256 by (simp add: c char_of_eq_iff take_bit_nat_eq_self)
  have Y: "c = CHR ''Y'' \<longleftrightarrow> n = 89"
    using n256 by (simp add: c char_of_eq_iff take_bit_nat_eq_self)
  have up: "char_of (n + 32) = CHR ''y'' \<longleftrightarrow> n = 89" if "n \<le> 90"
    using that by (simp add: char_of_eq_iff take_bit_nat_eq_self)
  have "lower_char c = (if 65 \<le> n \<and> n \<le> 90 then char_of (n + 32) else c)"
    by (simp add: lower_char_def n_def Let_def)
  then show ?thesis using y Y up by auto
qed

lemma str_in_char: "str_in [c] t \<longleftrightarrow> c \<in> set t"
  by (induction t) (auto simp: str_in_def sublist_Cons_right)

lemma str_in_y_lower:
  "str_in ''y'' (lower s) \<longleftrightarrow> CHR ''y'' \<in> set s \<or> CHR ''Y'' \<in> set s"
proof -
  have "CHR ''y'' \<in> set (lower s) \<longleftrightarrow> (\<exists>c \<in> set s. lower_char c = CHR ''y'')"
    by (simp add: lower_def image_iff) metis
  then show ?thesis by (auto simp: str_in_char lower_char_y)
qed

lemma str_in_middle: "str_in s (a @ s @ b)"
  by (simp add: str_in_def)

lemma str_in_after: "str_in s t \<Longrightarrow> str_in s (a @ t)"
  by (auto simp: str_in_def sublist_append)

subsection \<open>Dicts and the set of item tuples\<close>

lemma foldl_update_fresh:
  "distinct (map fst (d @ t)) \<Longrightarrow>
   foldl (\<lambda>d kv. AList.update (fst kv) (snd kv) d) d t = d @ t"
proof (induction t arbitrary: d)
  case Nil
  then show ?case by simp
next
  case (Cons kv t)
  have "fst kv \<notin> fst ` set d" using Cons.prems by auto
  then have u: "AList.update (fst kv) (snd kv) d = d @ [kv]"
    by (induction d) auto
  from Cons.prems have "distinct (map fst ((d @ [kv]) @ t))" by simp
  from Cons.IH[OF this] u show ?case by simp
qed

lemma dict_items: "distinct (map fst d) \<Longrightarrow> dict (items d) = d"
  using foldl_update_fresh[of "[]" d] by (simp add: dict_def items_def)

lemma foldl_update_distinct:
  "distinct (map fst d) \<Longrightarrow>
   distinct (map fst (foldl (\<lambda>d kv. AList.update (fst kv) (snd kv) d) d t))"
  by (induction t arbitrary: d) (simp_all add: distinct_update)

lemma distinct_keys_dict: "distinct (map fst (dict t))"
  by (simp add: dict_def foldl_update_distinct)

lemma dict_items_dict: "dict (items (dict t)) = dict t"
  by (simp add: dict_items distinct_keys_dict)

text \<open>
  The parameter \<open>slot\<close> loses no behaviour: every order in which the set can hand out
  its elements is the order of some \<open>slot\<close>.
\<close>

lemma slot_of_position:
  assumes "distinct ys" and "i < length ys"
  shows "length (takeWhile (\<lambda>y. y \<noteq> ys ! i) ys) = i"
proof -
  have "takeWhile (\<lambda>y. y \<noteq> ys ! i) ys = take i ys"
    using assms by (intro takeWhile_eq_take_P_nth) (auto simp: nth_eq_iff_index_eq)
  then show ?thesis using assms by simp
qed

lemma set_iter_any_order:
  assumes "distinct ys" and "set ys = set xs"
  shows "\<exists>slot. set_iter slot xs = ys"
proof -
  define slot where "slot x = length (takeWhile (\<lambda>y. y \<noteq> x) ys)" for x
  have m: "map slot ys = [0..<length ys]"
    using assms(1) by (intro nth_equalityI) (simp_all add: slot_def slot_of_position)
  have "mset (remdups xs) = mset ys"
    using assms by (simp add: set_eq_iff_mset_eq_distinct[symmetric])
  moreover have "inj_on slot (set (remdups xs))"
    using m assms by (metis distinct_map distinct_upt set_remdups)
  moreover have "sorted (map slot ys)"
    by (simp add: m)
  ultimately have "sort_key slot (remdups xs) = ys"
    by (rule sort_key_inj_key_eq)
  then show ?thesis by (auto simp: set_iter_def)
qed

lemma set_unique_warnings:
  "set (unique_warnings sl ws) = (\<lambda>d. dict (items d)) ` set ws"
  by (simp add: unique_warnings_def set_iter_def image_image)

lemma unique_warnings_Nil: "unique_warnings sl [] = []"
  by (simp add: unique_warnings_def set_iter_def)

text \<open>
  On Python dicts (distinct keys) the new list is the old one without repetitions, in
  the order of the set.
\<close>

lemma unique_warnings_dicts:
  assumes "\<forall>d \<in> set ws. distinct (map fst d)"
  shows "unique_warnings sl ws = sort_key sl (remdups ws)"
proof -
  have "map dict (sort_key sl (remdups ws)) = map (\<lambda>d. d) (sort_key sl (remdups ws))"
    using assms dict_items by (intro map_cong) (auto simp: items_def)
  moreover have "map items ws = ws" by (induction ws) (simp_all add: items_def)
  ultimately show ?thesis by (simp add: unique_warnings_def set_iter_def)
qed

lemma unique_warnings_same_elements:
  "\<forall>d \<in> set ws. distinct (map fst d) \<Longrightarrow> set (unique_warnings sl ws) = set ws"
  by (simp add: unique_warnings_dicts)

lemma unique_warnings_distinct:
  "\<forall>d \<in> set ws. distinct (map fst d) \<Longrightarrow> distinct (unique_warnings sl ws)"
  by (simp add: unique_warnings_dicts)

subsection \<open>The function, once the answer is yes\<close>

lemma consent_given: "resolve_report (Some True) w = (Inr True, w)"
  by (simp add: resolve_report_def)

lemma upload_consented:
  assumes "resolve_report report w = (Inr True, w1)"
    and "map_of d ''warnings'' = Some (Warnings ws)"
  shows "upload_json_report rt report (Some d) w =
     (let d' = AList.update ''warnings'' (Warnings (unique_warnings (slot rt) ws)) d;
          p = requests_post rt (report_request d') w1
      in case fst p of
           Inl e \<Rightarrow> (Some e, Some d', snd p)
         | Inr r \<Rightarrow>
             (fst (report_response rt r (snd p)), Some d',
              snd (report_response rt r (snd p))))"
  using assms
  by (simp add: upload_json_report_def Let_def split: sum.splits prod.splits)


lemma resolve_redirects_direct:
  "redirect_target r = None \<Longrightarrow> resolve_redirects n rt req r w = (Inr r, w)"
  by (cases n) simp_all

lemma resolve_redirects_step:
  assumes "redirect_target r = Some l" and "server rt (redirected rt req r l) = Some r'"
    and "0 < n"
  shows "resolve_redirects n rt req r w =
           resolve_redirects (n - 1) rt (redirected rt req r l) r'
             (w\<lparr>network := network w @ [redirected rt req r l]\<rparr>)"
  using assms by (cases n) (simp_all add: Let_def)

lemma requests_post_direct:
  "server rt req = Some r \<Longrightarrow> redirect_target r = None \<Longrightarrow>
   requests_post rt req w = (Inr r, w\<lparr>network := network w @ [req]\<rparr>)"
  by (simp add: requests_post_def Let_def resolve_redirects_direct)

lemma requests_post_unreachable:
  "server rt req = None \<Longrightarrow>
   requests_post rt req w = (Inl ConnectionError, w\<lparr>network := network w @ [req]\<rparr>)"
  by (simp add: requests_post_def Let_def)

text \<open>
  \<^verbatim>\<open>requests.post\<close> changes nothing of the world but the network: the request goes
  out, then at most 30 requests that follow redirects.
\<close>

lemma resolve_redirects_world:
  "\<exists>rest. snd (resolve_redirects n rt req r w) = w\<lparr>network := network w @ rest\<rparr>
          \<and> length rest \<le> n"
proof (induction n arbitrary: req r w)
  case 0
  have "w = w\<lparr>network := network w @ []\<rparr>" by simp
  then show ?case
    by (intro exI[of _ "[]"]) (simp split: option.splits)
next
  case (Suc n)
  show ?case
  proof (cases "redirect_target r")
    case None
    then show ?thesis by (intro exI[of _ "[]"]) simp
  next
    case (Some l)
    let ?req = "redirected rt req r l"
    let ?w = "w\<lparr>network := network w @ [?req]\<rparr>"
    show ?thesis
    proof (cases "server rt ?req")
      case None
      with Some show ?thesis
        by (intro exI[of _ "[?req]"]) (simp add: Let_def)
    next
      case (Some r')
      from Suc.IH[of ?req r' ?w] obtain rest where
        "snd (resolve_redirects n rt ?req r' ?w) = ?w\<lparr>network := network ?w @ rest\<rparr>"
        "length rest \<le> n"
        by blast
      with Some \<open>redirect_target r = Some l\<close> show ?thesis
        by (intro exI[of _ "?req # rest"]) (simp add: Let_def)
    qed
  qed
qed

lemma requests_post_world:
  "\<exists>rest. snd (requests_post rt req w) = w\<lparr>network := network w @ req # rest\<rparr>
          \<and> length rest \<le> 30"
proof (cases "server rt req")
  case None
  then show ?thesis
    by (intro exI[of _ "[]"]) (simp add: requests_post_unreachable)
next
  case (Some r)
  let ?w = "w\<lparr>network := network w @ [req]\<rparr>"
  from resolve_redirects_world[of 30 rt req r ?w] obtain rest where
    "snd (resolve_redirects 30 rt req r ?w) = ?w\<lparr>network := network ?w @ rest\<rparr>"
    "length rest \<le> 30"
    by blast
  with Some show ?thesis
    by (intro exI[of _ rest]) (simp add: requests_post_def Let_def)
qed

lemma requests_post_console:
  assumes "requests_post rt req w = (x, w')"
  shows "stdout w' = stdout w \<and> stdin w' = stdin w"
proof -
  from requests_post_world[of rt req w] obtain rest where
    "snd (requests_post rt req w) = w\<lparr>network := network w @ req # rest\<rparr>"
    by blast
  with assms show ?thesis by simp
qed

text \<open>Without a response \<^verbatim>\<open>requests.post\<close> raises; the request went out once.\<close>

lemma unreachable_server_raises:
  assumes "resolve_report report w = (Inr True, w1)"
    and "map_of d ''warnings'' = Some (Warnings ws)"
    and "server rt (report_request
           (AList.update ''warnings'' (Warnings (unique_warnings (slot rt) ws)) d)) = None"
  shows "upload_json_report rt report (Some d) w =
           (Some ConnectionError,
            Some (AList.update ''warnings'' (Warnings (unique_warnings (slot rt) ws)) d),
            w1\<lparr>network := network w1 @ [report_request
              (AList.update ''warnings'' (Warnings (unique_warnings (slot rt) ws)) d)]\<rparr>)"
  by (simp add: upload_consented[OF assms(1,2)] Let_def
      requests_post_unreachable[OF assms(3)])

text \<open>What the concrete runs need: the empty list of warnings, and a server that
  answers with a response that is no redirect.\<close>

lemma no_warnings_unique:
  "AList.update ''warnings'' (Warnings (unique_warnings sl [])) no_warnings = no_warnings"
  by (simp add: no_warnings_def unique_warnings_Nil)

lemma post_to_answering:
  "redirect_target r = None \<Longrightarrow>
   requests_post (answering r) req w = (Inr r, w\<lparr>network := network w @ [req]\<rparr>)"
  by (rule requests_post_direct) (simp_all add: answering_def)

lemma no_redirect_examples:
  "redirect_target unavailable = None" "redirect_target garbled = None"
  "redirect_target published = None" "redirect_target listed = None"
  by (simp_all add: redirect_target_def unavailable_def garbled_def published_def
      listed_def)

text \<open>With the answer yes and no payload, \<^verbatim>\<open>data['warnings']\<close> raises.\<close>

lemma consented_without_payload_raises:
  "upload_json_report rt (Some True) None w = (Some TypeError, None, w)"
  by (simp add: upload_json_report_def resolve_report_def)

text \<open>
  With the answer yes and a value under \<^verbatim>\<open>'warnings'\<close> that is no iterable of dicts,
  the comprehension raises before anything is changed or sent.
\<close>

lemma other_warnings_raise:
  assumes "resolve_report report w = (Inr True, w1)"
    and "map_of d ''warnings'' = Some (Other x)"
  shows "upload_json_report rt report (Some d) w = (Some (raises rt x), Some d, w1)"
  using assms by (simp add: upload_json_report_def)

subsection \<open>Consent\<close>

text \<open>
  C2. With \<^verbatim>\<open>report=False\<close> the function returns without an exception and leaves the
  world as it was: nothing is sent (\<open>network\<close>), nothing is written (\<open>stdout\<close>), nothing
  is read (\<open>stdin\<close>); this for every payload \<open>data\<close>, which is unchanged too.
\<close>

theorem no_report_no_effect:
  "upload_json_report rt (Some False) data w = (None, data, w)"
  by (simp add: upload_json_report_def resolve_report_def)

text \<open>
  C3. An explicit flag is returned as it is and the world is untouched (no prompt, no
  line read). Without a flag the prompt is written once, one line is read, and the
  decision is true exactly when that line contains \<^verbatim>\<open>y\<close> or \<^verbatim>\<open>Y\<close>; so the empty line
  and every line without that letter give false.
\<close>

theorem consent_resolution:
  "resolve_report (Some b) w = (Inr b, w) \<and>
   resolve_report None (w\<lparr>stdin := answer # rest\<rparr>) =
     (Inr (CHR ''y'' \<in> set answer \<or> CHR ''Y'' \<in> set answer),
      w\<lparr>stdin := rest, stdout := stdout w @ consent_prompt\<rparr>)"
  by (simp add: resolve_report_def input_def str_in_y_lower)

text \<open>
  C10. When the decision is no (the flag is false, or the answer to the prompt has no
  \<^verbatim>\<open>y\<close>), the function returns without an exception, the payload is returned as it
  came, and the world is the one the decision left: the result does not depend on the
  payload, which may be \<^verbatim>\<open>None\<close>.
\<close>

theorem declined_leaves_payload:
  "resolve_report report w = (Inr False, w1) \<Longrightarrow>
   upload_json_report rt report data w = (None, data, w1)"
  by (simp add: upload_json_report_def)

theorem declined_leaves_payload_witness:
  "upload_json_report
     (answering garbled)
     None None (quiet\<lparr>stdin := [''no'']\<rparr>)
   = (None, None, quiet\<lparr>stdout := consent_prompt\<rparr>)"
  using declined_leaves_payload
    [of None "quiet\<lparr>stdin := [''no'']\<rparr>" "quiet\<lparr>stdout := consent_prompt\<rparr>"
        "answering garbled"
        None]
  by (simp add: resolve_report_def input_def quiet_def str_in_y_lower)

subsection \<open>The list of unique warnings\<close>

text \<open>
  C7. Building the list of unique warnings from a list that was built that way gives
  the same elements again, whatever the two iteration orders of the sets are.
\<close>

theorem unique_warnings_idempotent:
  "set (unique_warnings sl' (unique_warnings sl ws)) = set (unique_warnings sl ws)"
  by (simp add: set_unique_warnings image_image dict_items_dict)

subsection \<open>What is printed for a response\<close>

lemma format_value_JStr: "format_value st (JStr u) = u"
  by (simp add: format_value_def)

text \<open>
  C4, as the code has it. For every response with a status other than 200 that
  \<^verbatim>\<open>requests.post\<close> returns (the last one, when redirects were followed) the function
  returns without an exception and has written exactly two lines (\<^verbatim>\<open>requests.post\<close>
  itself writes nothing): the fixed error line, which names the host, and the reason
  phrase. So the message contains the host name and the reason phrase.
\<close>

theorem failure_message:
  fixes rt :: "('v, 'x, 'j) runtime"
  defines "d' \<equiv> \<lambda>rt d ws. AList.update ''warnings'' (Warnings (unique_warnings (slot rt) ws)) d"
  defines "message \<equiv> \<lambda>r. ''Error: Could not sent a test report to '' @ REPORT_URL @ ''.''
                         @ newline @ reason r @ newline"
  assumes "resolve_report report w = (Inr True, w1)"
    and "map_of d ''warnings'' = Some (Warnings ws)"
    and "requests_post rt (report_request (d' rt d ws)) w1 = (Inr r, w2)"
    and "status_code r \<noteq> 200"
  shows "upload_json_report rt report (Some d) w =
           (None, Some (d' rt d ws), w2\<lparr>stdout := stdout w2 @ message r\<rparr>)
         \<and> stdout w2 = stdout w1
         \<and> str_in REPORT_URL (message r) \<and> str_in (reason r) (message r)"
proof -
  have "stdout w2 = stdout w1"
    using requests_post_console[OF assms(5)] by simp
  moreover have "str_in REPORT_URL (message r)"
    unfolding message_def by (rule str_in_middle)
  moreover have "str_in (reason r) (message r)"
    unfolding message_def
    by (rule str_in_after, rule str_in_after, rule str_in_after, rule str_in_middle)
  moreover have "upload_json_report rt report (Some d) w =
           (None, Some (d' rt d ws), w2\<lparr>stdout := stdout w2 @ message r\<rparr>)"
    using assms(5,6) unfolding d'_def message_def
    by (simp add: upload_consented[OF assms(3,4)] Let_def report_response_def print_def)
  ultimately show ?thesis by simp
qed

theorem failure_message_witness:
  "upload_json_report (answering unavailable) (Some True) (Some no_warnings) quiet =
     (None, Some no_warnings,
      quiet\<lparr>network := [report_request no_warnings],
            stdout := ''Error: Could not sent a test report to tests.obspy.org.''
                      @ newline @ ''Service Unavailable'' @ newline\<rparr>)"
proof -
  have k: "map_of no_warnings ''warnings'' = Some (Warnings [])"
    by (simp add: no_warnings_def)
  have p: "requests_post (answering unavailable)
             (report_request (AList.update ''warnings''
                (Warnings (unique_warnings (slot (answering unavailable)) [])) no_warnings))
             quiet
           = (Inr unavailable, quiet\<lparr>network := [report_request no_warnings]\<rparr>)"
    by (simp add: no_warnings_unique post_to_answering no_redirect_examples quiet_def)
  have n: "status_code unavailable \<noteq> 200"
    by (simp add: unavailable_def)
  show ?thesis
    using failure_message[OF consent_given k p n]
    by (simp add: no_warnings_unique quiet_def unavailable_def REPORT_URL_def)
qed

text \<open>
  At the answer 503 \<^verbatim>\<open>Service Unavailable\<close> nothing of what is written has \<^verbatim>\<open>503\<close> in
  it.
\<close>

theorem failure_message_lacks_status:
  "\<not> str_in ''503''
       (stdout (snd (snd (upload_json_report (answering unavailable) (Some True)
                            (Some no_warnings) quiet))))"
proof -
  have k: "map_of no_warnings ''warnings'' = Some (Warnings [])"
    by (simp add: no_warnings_def)
  have "stdout (snd (snd (upload_json_report (answering unavailable) (Some True)
                            (Some no_warnings) quiet)))
        = ''Error: Could not sent a test report to tests.obspy.org.''
          @ newline @ ''Service Unavailable'' @ newline"
    by (simp add: upload_consented[OF consent_given k] Let_def no_warnings_unique
        post_to_answering redirect_target_def report_response_def print_def
        unavailable_def quiet_def REPORT_URL_def)
  then show ?thesis
    by (simp add: str_in_def newline_def sublist_code(3))
qed

text \<open>
  The digits of the output come from the reason phrase: a run of digits that occurs in
  the two lines occurs in the reason phrase.
\<close>

lemma str_in_disjoint_left:
  assumes "s \<noteq> []" and "set s \<inter> set a = {}" and "str_in s (a @ b)"
  shows "str_in s b"
proof -
  from assms(3) consider "sublist s a" | "sublist s b"
    | s1 s2 where "s = s1 @ s2" "suffix s1 a" "prefix s2 b"
    by (auto simp: str_in_def sublist_append)
  then show ?thesis
  proof cases
    case 1
    then have "set s \<subseteq> set a" by (rule set_mono_sublist)
    with assms(1,2) show ?thesis by (cases s) auto
  next
    case 2
    then show ?thesis by (simp add: str_in_def)
  next
    case 3
    from \<open>suffix s1 a\<close> have "set s1 \<subseteq> set a" by (rule set_mono_suffix)
    with assms(2) \<open>s = s1 @ s2\<close> have "s1 = []" by (cases s1) auto
    with 3 show ?thesis by (simp add: str_in_def)
  qed
qed

lemma str_in_disjoint_right:
  assumes "s \<noteq> []" and "set s \<inter> set b = {}" and "str_in s (a @ b)"
  shows "str_in s a"
proof -
  from assms(3) consider "sublist s a" | "sublist s b"
    | s1 s2 where "s = s1 @ s2" "suffix s1 a" "prefix s2 b"
    by (auto simp: str_in_def sublist_append)
  then show ?thesis
  proof cases
    case 1
    then show ?thesis by (simp add: str_in_def)
  next
    case 2
    then have "set s \<subseteq> set b" by (rule set_mono_sublist)
    with assms(1,2) show ?thesis by (cases s) auto
  next
    case 3
    from \<open>prefix s2 b\<close> have "set s2 \<subseteq> set b" by (rule set_mono_prefix)
    with assms(2) \<open>s = s1 @ s2\<close> have "s2 = []" by (cases s2) auto
    with 3 show ?thesis by (simp add: str_in_def)
  qed
qed

lemma digits_from_reason:
  assumes "s \<noteq> []" and "set s \<subseteq> set ''0123456789''"
    and "str_in s (''Error: Could not sent a test report to '' @ REPORT_URL @ ''.''
                   @ newline @ rsn @ newline)"
  shows "str_in s rsn"
proof -
  let ?line = "''Error: Could not sent a test report to '' @ REPORT_URL @ ''.'' @ newline"
  have "set ''0123456789'' \<inter> set ?line = {}"
    by (simp add: REPORT_URL_def newline_def)
  with assms(2) have l: "set s \<inter> set ?line = {}" by blast
  have "set ''0123456789'' \<inter> set newline = {}"
    by (simp add: newline_def)
  with assms(2) have r: "set s \<inter> set newline = {}" by blast
  from assms(3) have "str_in s (?line @ rsn @ newline)" by simp
  from str_in_disjoint_left[OF assms(1) l this] have "str_in s (rsn @ newline)" .
  from str_in_disjoint_right[OF assms(1) r this] show ?thesis .
qed




text \<open>
  C6, as the code has it. For a response with status 200 that \<^verbatim>\<open>requests.post\<close>
  returns and whose body is JSON: when the body is an object, the function returns
  without an exception and has written the success message, which contains the value
  under \<^verbatim>\<open>url\<close> when the object has that key (a string as it is, any other value as
  Python's \<^verbatim>\<open>str\<close> prints it) and the host name when it has not; when the body is no
  object (an array, a string, a number, \<^verbatim>\<open>null\<close>), \<^verbatim>\<open>.get\<close> raises, the exception
  leaves the function and nothing is written.
\<close>

theorem success_message:
  fixes rt :: "('v, 'x, 'j) runtime"
  defines "d' \<equiv> \<lambda>rt d ws. AList.update ''warnings'' (Warnings (unique_warnings (slot rt) ws)) d"
  defines "message \<equiv> \<lambda>shown. ''Your test results have been reported and are available at: ''
                         @ shown @ newline @ ''Thank you!'' @ newline"
  assumes "resolve_report report w = (Inr True, w1)"
    and "map_of d ''warnings'' = Some (Warnings ws)"
    and "requests_post rt (report_request (d' rt d ws)) w1 = (Inr r, w2)"
    and "status_code r = 200"
    and "body r = Some j"
  shows "stdout w2 = stdout w1 \<and>
        (case j of
           JObj kvs \<Rightarrow>
             (case map_of kvs ''url'' of
                Some v \<Rightarrow>
                  upload_json_report rt report (Some d) w =
                    (None, Some (d' rt d ws),
                     w2\<lparr>stdout := stdout w2 @ message (format_value (str rt) v)\<rparr>)
                  \<and> str_in (format_value (str rt) v) (message (format_value (str rt) v))
              | None \<Rightarrow>
                  upload_json_report rt report (Some d) w =
                    (None, Some (d' rt d ws),
                     w2\<lparr>stdout := stdout w2 @ message REPORT_URL\<rparr>)
                  \<and> str_in REPORT_URL (message REPORT_URL))
         | JStr s \<Rightarrow>
             upload_json_report rt report (Some d) w =
               (Some AttributeError, Some (d' rt d ws), w2)
         | JOther x \<Rightarrow>
             upload_json_report rt report (Some d) w =
               (Some AttributeError, Some (d' rt d ws), w2))"
proof -
  have m: "str_in shown (message shown)" for shown
    unfolding message_def by (rule str_in_middle)
  have c: "stdout w2 = stdout w1"
    using requests_post_console[OF assms(5)] by simp
  show ?thesis
  proof (cases j)
    case (JObj kvs)
    have "upload_json_report rt report (Some d) w =
        (None, Some (d' rt d ws),
         w2\<lparr>stdout := stdout w2 @
              message (format_value (str rt)
                (case map_of kvs ''url'' of None \<Rightarrow> JStr REPORT_URL | Some v \<Rightarrow> v))\<rparr>)"
      using assms(5-) JObj unfolding d'_def message_def
      by (simp add: upload_consented[OF assms(3,4)] Let_def report_response_def
          response_json_def json_get_def print_def)
    with JObj m c show ?thesis
      by (simp add: format_value_JStr split: option.splits)
  next
    case (JStr s)
    with assms(5-) c show ?thesis unfolding d'_def
      by (simp add: upload_consented[OF assms(3,4)] Let_def report_response_def
          response_json_def json_get_def)
  next
    case (JOther x)
    with assms(5-) c show ?thesis unfolding d'_def
      by (simp add: upload_consented[OF assms(3,4)] Let_def report_response_def
          response_json_def json_get_def)
  qed
qed

theorem success_message_witness:
  "upload_json_report (answering published) (Some True) (Some no_warnings) quiet =
     (None, Some no_warnings,
      quiet\<lparr>network := [report_request no_warnings],
            stdout := ''Your test results have been reported and are available at: ''
                      @ ''https://tests.example/r/42'' @ newline @ ''Thank you!'' @ newline\<rparr>)
   \<and> str_in ''https://tests.example/r/42''
        (''Your test results have been reported and are available at: ''
         @ ''https://tests.example/r/42'' @ newline @ ''Thank you!'' @ newline)"
proof -
  have k: "map_of no_warnings ''warnings'' = Some (Warnings [])"
    by (simp add: no_warnings_def)
  have p: "requests_post (answering published)
             (report_request (AList.update ''warnings''
                (Warnings (unique_warnings (slot (answering published)) [])) no_warnings))
             quiet
           = (Inr published, quiet\<lparr>network := [report_request no_warnings]\<rparr>)"
    by (simp add: no_warnings_unique post_to_answering no_redirect_examples quiet_def)
  have n: "status_code published = 200"
    "body published = Some (JObj [(''url'', JStr ''https://tests.example/r/42'')])"
    by (simp_all add: published_def)
  from success_message[OF consent_given k p n] show ?thesis
    by (simp add: no_warnings_unique quiet_def format_value_JStr)
qed

text \<open>
  At the answer 200 with the body \<^verbatim>\<open>[]\<close> (JSON, with no \<^verbatim>\<open>url\<close> in it) the call ends
  in the exception and has written nothing, the host name neither.
\<close>

theorem non_object_body_escapes:
  "fst (upload_json_report (answering listed) (Some True) (Some no_warnings) quiet)
     = Some AttributeError
   \<and> stdout (snd (snd (upload_json_report (answering listed) (Some True)
                         (Some no_warnings) quiet))) = []"
proof -
  have k: "map_of no_warnings ''warnings'' = Some (Warnings [])"
    by (simp add: no_warnings_def)
  show ?thesis
    by (simp add: upload_consented[OF consent_given k] Let_def no_warnings_unique
        post_to_answering redirect_target_def report_response_def response_json_def
        json_get_def listed_def quiet_def)
qed

text \<open>A body that is JSON but no object: \<^verbatim>\<open>.get\<close> raises, nothing is written.\<close>

lemma non_object_body_raises:
  assumes "status_code r = 200" and "body r = Some j" and "\<forall>kvs. j \<noteq> JObj kvs"
  shows "report_response rt r w = (Some AttributeError, w)"
  using assms
  by (cases j) (simp_all add: report_response_def response_json_def json_get_def)

subsection \<open>The payload\<close>



text \<open>
  What reaches the network: the call sends nothing, or the report and then what
  \<^verbatim>\<open>requests\<close> sends to follow redirects, at most 30 requests more; and the report
  only after the decision was yes, as a POST of a JSON body to
  \<^verbatim>\<open>https://tests.obspy.org/post/v2/\<close>. When no answer of the server is a redirect
  the report is the only request, whatever the answer.
\<close>

lemma resolve_report_network: "network (snd (resolve_report report w)) = network w"
  by (simp add: resolve_report_def input_def Let_def split: option.splits list.splits)

lemma report_response_network: "network (snd (report_response rt r w)) = network w"
  by (simp add: report_response_def print_def split: sum.splits)

lemma upload_consented_network:
  assumes "resolve_report report w = (Inr True, w1)"
    and "map_of d ''warnings'' = Some (Warnings ws)"
  shows "network (snd (snd (upload_json_report rt report (Some d) w)))
         = network (snd (requests_post rt
             (report_request
                (AList.update ''warnings'' (Warnings (unique_warnings (slot rt) ws)) d))
             w1))"
  by (simp add: upload_consented[OF assms] Let_def report_response_network
      split: sum.splits)

lemma upload_network:
  "network (snd (snd (upload_json_report rt report data w))) = network w
   \<or> (\<exists>d' rest. fst (resolve_report report w) = Inr True
          \<and> network (snd (snd (upload_json_report rt report data w)))
              = network w @ post_json ''https://tests.obspy.org/post/v2/'' d' # rest
          \<and> length rest \<le> 30)"
proof (cases "resolve_report report w")
  case (Pair x w1)
  have n: "network w1 = network w"
    using resolve_report_network[of report w] Pair by simp
  show ?thesis
  proof (cases x)
    case (Inl e)
    with Pair n show ?thesis by (simp add: upload_json_report_def)
  next
    case (Inr rep)
    show ?thesis
    proof (cases "rep \<and> (\<exists>d ws. data = Some d \<and> map_of d ''warnings'' = Some (Warnings ws))")
      case True
      then obtain d ws where d: "data = Some d" "map_of d ''warnings'' = Some (Warnings ws)"
        and rep: "resolve_report report w = (Inr True, w1)"
        using Pair Inr by auto
      let ?d' = "AList.update ''warnings'' (Warnings (unique_warnings (slot rt) ws)) d"
      from requests_post_world[of rt "report_request ?d'" w1] obtain rest where
        "snd (requests_post rt (report_request ?d') w1)
           = w1\<lparr>network := network w1 @ report_request ?d' # rest\<rparr>"
        "length rest \<le> 30"
        by blast
      then have "network (snd (snd (upload_json_report rt report data w)))
                   = network w @ post_json ''https://tests.obspy.org/post/v2/'' ?d' # rest
                 \<and> length rest \<le> 30"
        unfolding d(1) upload_consented_network[OF rep d(2)]
        by (simp add: n report_request_def REPORT_URL_def)
      with rep show ?thesis by auto
    next
      case False
      with Pair Inr n show ?thesis
        by (auto simp: upload_json_report_def split: option.splits field.splits)
    qed
  qed
qed

lemma upload_sends_once_unless_redirected:
  assumes "\<forall>req r. server rt req = Some r \<longrightarrow> redirect_target r = None"
  shows "network (snd (snd (upload_json_report rt report data w))) = network w
   \<or> (\<exists>d'. fst (resolve_report report w) = Inr True
          \<and> network (snd (snd (upload_json_report rt report data w)))
              = network w @ [post_json ''https://tests.obspy.org/post/v2/'' d'])"
proof (cases "resolve_report report w")
  case (Pair x w1)
  have n: "network w1 = network w"
    using resolve_report_network[of report w] Pair by simp
  have once: "network (snd (requests_post rt req w1)) = network w @ [req]" for req
  proof (cases "server rt req")
    case None
    then show ?thesis by (simp add: requests_post_unreachable n)
  next
    case (Some r)
    with assms have "redirect_target r = None" by blast
    with Some show ?thesis by (simp add: requests_post_direct n)
  qed
  show ?thesis
  proof (cases x)
    case (Inl e)
    with Pair n show ?thesis by (simp add: upload_json_report_def)
  next
    case (Inr rep)
    show ?thesis
    proof (cases "rep \<and> (\<exists>d ws. data = Some d \<and> map_of d ''warnings'' = Some (Warnings ws))")
      case True
      then obtain d ws where d: "data = Some d" "map_of d ''warnings'' = Some (Warnings ws)"
        and rep: "resolve_report report w = (Inr True, w1)"
        using Pair Inr by auto
      show ?thesis
        unfolding d(1) upload_consented_network[OF rep d(2)] once
        by (rule disjI2) (auto simp: rep report_request_def REPORT_URL_def)
    next
      case False
      with Pair Inr n show ?thesis
        by (auto simp: upload_json_report_def split: option.splits field.splits)
    qed
  qed
qed

text \<open>
  A redirect that is followed: the server answers the report with 307 and a
  \<^verbatim>\<open>Location\<close>, the report is posted again to that URL, and the message is the one for
  the answer from there.
\<close>

lemma redirect_followed:
  "upload_json_report redirecting (Some True) (Some no_warnings) quiet =
     (None, Some no_warnings,
      quiet\<lparr>network := [report_request no_warnings,
                         post_json ''https://tests.example/post/'' no_warnings],
            stdout := ''Error: Could not sent a test report to tests.obspy.org.''
                      @ newline @ ''Service Unavailable'' @ newline\<rparr>)"
proof -
  have k: "map_of no_warnings ''warnings'' = Some (Warnings [])"
    by (simp add: no_warnings_def)
  let ?again = "post_json ''https://tests.example/post/'' no_warnings :: (int, string) request"
  have t: "redirect_target moved = Some ''https://tests.example/post/''"
    by (simp add: redirect_target_def moved_def)
  have a: "redirected redirecting (report_request no_warnings) moved
             ''https://tests.example/post/'' = ?again"
    by (simp add: redirected_def redirecting_def report_request_def post_json_def
        rebuild_method_def moved_def Let_def)
  have s1: "server redirecting (report_request no_warnings) = Some moved"
    by (simp add: redirecting_def report_request_def post_json_def REPORT_URL_def)
  have s2: "server redirecting ?again = Some unavailable"
    by (simp add: redirecting_def post_json_def)
  have "resolve_redirects 30 redirecting (report_request no_warnings) moved w
          = (Inr unavailable, w\<lparr>network := network w @ [?again]\<rparr>)" for w
    using resolve_redirects_step[OF t, of redirecting "report_request no_warnings"
        unavailable 30 w] s2
    by (simp add: a resolve_redirects_direct no_redirect_examples)
  then have p: "requests_post redirecting (report_request no_warnings) quiet
           = (Inr unavailable,
              quiet\<lparr>network := [report_request no_warnings, ?again]\<rparr>)"
    by (simp add: requests_post_def s1 Let_def quiet_def)
  let ?w = "quiet\<lparr>network := [report_request no_warnings, ?again]\<rparr>"
  have "upload_json_report redirecting (Some True) (Some no_warnings) quiet
          = (fst (report_response redirecting unavailable ?w), Some no_warnings,
             snd (report_response redirecting unavailable ?w))"
    by (simp add: upload_consented[OF consent_given k] Let_def no_warnings_unique p)
  then show ?thesis
    by (simp add: report_response_def print_def unavailable_def quiet_def REPORT_URL_def)
qed

subsection \<open>Records that differ in the order of their keys\<close>

text \<open>
  The set holds the tuples of items, and two tuples with the same pairs in a different
  order are different tuples. For any iteration order the list built from \<open>ab\<close> and
  \<open>ba\<close> has both.
\<close>

lemma unique_warnings_ab_ba:
  "unique_warnings sl [ab, ba] = [ab, ba] \<or> unique_warnings sl [ab, ba] = [ba, ab]"
  by (simp add: unique_warnings_def set_iter_def items_def dict_def ab_def ba_def)

lemma same_fields_ab_ba: "same_fields ab ba \<and> same_fields ba ab"
  by (auto simp: same_fields_def ab_def ba_def)

text \<open>
  When all records list their keys in one order, records with the same fields are the
  same list, and the list of unique warnings has no two records with the same fields.
\<close>

lemma snd_by_keys:
  "distinct (map fst xs) \<Longrightarrow> map (\<lambda>k. the (map_of xs k)) (map fst xs) = map snd xs"
proof (induction xs)
  case Nil
  then show ?case by simp
next
  case (Cons x xs)
  have "the (map_of (x # xs) k) = the (map_of xs k)" if "k \<in> set (map fst xs)" for k
    using Cons.prems that by (cases x) auto
  then have "map (\<lambda>k. the (map_of (x # xs) k)) (map fst xs)
          = map (\<lambda>k. the (map_of xs k)) (map fst xs)"
    by (intro map_cong) simp_all
  moreover have "the (map_of (x # xs) (fst x)) = snd x"
    by (cases x) simp
  ultimately show ?case
    using Cons by simp
qed

lemma same_fields_same_keys:
  assumes "distinct (map fst d)" and "map fst e = map fst d" and "same_fields d e"
  shows "d = e"
proof -
  have e: "distinct (map fst e)"
    using assms(1,2) by simp
  have m: "map_of d = map_of e"
    using assms(1,3) e by (simp add: map_of_inject_set same_fields_def)
  have "map snd d = map (\<lambda>k. the (map_of d k)) (map fst d)"
    by (rule snd_by_keys[OF assms(1), symmetric])
  also have "\<dots> = map (\<lambda>k. the (map_of e k)) (map fst e)"
    by (simp only: m assms(2))
  also have "\<dots> = map snd e"
    by (rule snd_by_keys[OF e])
  finally show ?thesis
    using assms(2) by (metis zip_map_fst_snd)
qed

lemma unique_warnings_same_keys:
  assumes "\<forall>d \<in> set ws. distinct (map fst d) \<and> map fst d = ks"
  shows "distinct (map set (unique_warnings sl ws))"
proof -
  have "\<forall>d \<in> set ws. distinct (map fst d)"
    using assms by blast
  then have u: "unique_warnings sl ws = sort_key sl (remdups ws)"
    by (rule unique_warnings_dicts)
  have "inj_on set (set ws)"
  proof (rule inj_onI)
    fix d e assume "d \<in> set ws" "e \<in> set ws" "set d = set e"
    with assms show "d = e"
      by (intro same_fields_same_keys) (auto simp: same_fields_def)
  qed
  then show ?thesis
    by (simp add: u distinct_map)
qed

text \<open>
  C1, at \<^verbatim>\<open>[{"a": 1, "b": 2}, {"b": 2, "a": 1}]\<close>: the two records have the same fields
  and the list of unique warnings has both of them, in one order or the other.
\<close>

theorem reordered_record_kept_twice:
  "same_fields ab ba
   \<and> (unique_warnings sl [ab, ba] = [ab, ba] \<or> unique_warnings sl [ab, ba] = [ba, ab])"
  using unique_warnings_ab_ba[of sl] same_fields_ab_ba by simp

text \<open>
  C8, at \<^verbatim>\<open>report=True\<close> and \<^verbatim>\<open>data={"warnings": [{"a": 1, "b": 2}, {"b": 2, "a": 1}]}\<close>:
  the request that is sent carries two warnings with the same fields, whatever the
  server does with it.
\<close>

theorem payload_repeats_reordered_record:
  "\<exists>p q rest. same_fields p q
      \<and> network (snd (snd (upload_json_report rt (Some True)
                              (Some [(''warnings'', Warnings [ab, ba])]) quiet)))
         = report_request [(''warnings'', Warnings [p, q])] # rest"
proof -
  have k: "map_of [(''warnings'', Warnings [ab, ba])] ''warnings''
             = Some (Warnings [ab, ba] :: (int, 'x) field)"
    by simp
  let ?d' = "[(''warnings'', Warnings (unique_warnings (slot rt) [ab, ba]))]
               :: (int, 'x) report"
  from requests_post_world[of rt "report_request ?d'" quiet] obtain rest where
    "snd (requests_post rt (report_request ?d') quiet)
       = quiet\<lparr>network := network quiet @ report_request ?d' # rest\<rparr>"
    by blast
  then have net: "network (snd (snd (upload_json_report rt (Some True)
                              (Some [(''warnings'', Warnings [ab, ba])]) quiet)))
         = report_request ?d' # rest"
    by (simp add: upload_consented_network[OF consent_given k] quiet_def)
  from unique_warnings_ab_ba[of "slot rt"] show ?thesis
  proof
    assume "unique_warnings (slot rt) [ab, ba] = [ab, ba]"
    with net same_fields_ab_ba show ?thesis
      by (intro exI[of _ ab] exI[of _ ba] exI[of _ rest]) simp
  next
    assume "unique_warnings (slot rt) [ab, ba] = [ba, ab]"
    with net same_fields_ab_ba show ?thesis
      by (intro exI[of _ ba] exI[of _ ab] exI[of _ rest]) simp
  qed
qed

end
